theory Spec2Isabelle
  imports Main "HOL-Library.Word"
begin

section \<open>Data model of the SQL store\<close>

text \<open>
  Public keys, consensus change identifiers and block identifiers are fixed-size byte
  arrays in the source; they are modelled as byte strings.  A \<^verbatim>\<open>time.Time\<close> is
  the instant in nanoseconds since the Unix epoch (so \<^verbatim>\<open>UnixNano()\<close> and \<^verbatim>\<open>UTC()\<close>
  are the identity), a \<^verbatim>\<open>time.Duration\<close> a number of nanoseconds.  A
  \<^verbatim>\<open>json.RawMessage\<close> is a byte string.  The \<^verbatim>\<open>settings\<close> column holds the gob
  encoding of a \<^verbatim>\<open>hostSettings\<close> struct, whose fields no function below reads: it
  is a byte string, the encoding of \<^verbatim>\<open>hostSettings{}\<close> being \<open>zeroHostSettings\<close>.
  SQL integer columns are mathematical integers; the \<^verbatim>\<open>float64\<close> interaction
  counters only ever receive whole numbers and are integers too.
\<close>

type_synonym PublicKey = string
type_synonym ConsensusChangeID = string
type_synonym Time = int
type_synonym Duration = int
type_synonym hostSettings = string

datatype error = Err string

definition zeroHostSettings :: hostSettings where
  "zeroHostSettings = []"

text \<open>\<^verbatim>\<open>Model\<close>: the common fields of every table.\<close>

record Model =
  ID :: nat
  CreatedAt :: Time
  UpdatedAt :: Time

record dbHost = Model +
  PublicKey :: PublicKey
  Settings :: hostSettings
  TotalScans :: int
  LastScan :: int
  LastScanSuccess :: bool
  SecondToLastScanSuccess :: bool
  Uptime :: Duration
  Downtime :: Duration
  SuccessfulInteractions :: int
  FailedInteractions :: int
  LastAnnouncement :: Time
  NetAddress :: string

record dbInteraction = Model +
  dbResult :: string
  dbSuccess :: bool
  dbTimestamp :: Time
  dbType :: string

record dbConsensusInfo = Model +
  CCID :: string

record dbAnnouncement = Model +
  HostKey :: PublicKey
  BlockHeight :: "64 word"
  BlockID :: string
  AnnNetAddress :: string

record dbAutopilot = Model +
  Identifier :: string
  Config :: string
  CurrentPeriod :: "64 word"

text \<open>\<^verbatim>\<open>hostdb.Announcement\<close> with its chain index, as \<^verbatim>\<open>insertAnnouncements\<close> reads it.\<close>

record ChainIndex =
  Height :: "64 word"
  IndexID :: string

record Announcement =
  Index :: ChainIndex
  AnnTimestamp :: Time
  AnnouncedNetAddress :: string

text \<open>\<^verbatim>\<open>announcement\<close>: an announcement for a single host.\<close>

record announcement =
  hostKey :: PublicKey
  announcement :: Announcement

text \<open>\<^verbatim>\<open>hostdb.Interaction\<close>, the fields \<^verbatim>\<open>RecordHostInteractions\<close> reads.\<close>

record Interaction =
  Result :: string
  Success :: bool
  Timestamp :: Time
  Type :: string

text \<open>\<^verbatim>\<open>hostdb.Host\<close> with its \<^verbatim>\<open>hostdb.Interactions\<close>, as \<^verbatim>\<open>convert\<close> fills them.\<close>

record Interactions =
  I_TotalScans :: int
  I_LastScan :: "Time option"
  I_LastScanSuccess :: bool
  I_SecondToLastScanSuccess :: bool
  I_Uptime :: Duration
  I_Downtime :: Duration
  I_SuccessfulInteractions :: int
  I_FailedInteractions :: int

record Host =
  KnownSince :: Time
  H_NetAddress :: string
  H_Interactions :: Interactions
  H_PublicKey :: PublicKey
  H_Settings :: "hostSettings option"

text \<open>\<^verbatim>\<open>api.Autopilot\<close>; the configuration type \<open>'c\<close> is kept abstract.\<close>

record 'c Autopilot =
  A_ID :: string
  A_Config :: 'c
  A_CurrentPeriod :: "64 word"

text \<open>
  \<^verbatim>\<open>modules.ConsensusChange\<close>: the blocks are kept abstract (type \<open>'b\<close>);
  \<^verbatim>\<open>InitialHeight()\<close> is the height the change starts from, a \<^verbatim>\<open>uint64\<close>.
\<close>

record 'b ConsensusChange =
  ChangeID :: ConsensusChangeID
  RevertedBlocks :: "'b list"
  AppliedBlocks :: "'b list"
  InitialHeight :: "64 word"

text \<open>The tables of the database that the functions below read and write.\<close>

record database =
  hosts :: "dbHost list"
  host_announcements :: "dbAnnouncement list"
  host_interactions :: "dbInteraction list"
  consensus_infos :: "dbConsensusInfo list"
  autopilots :: "dbAutopilot list"

text \<open>\<^verbatim>\<open>SQLStore\<close>: the database handle and the host database fields held in memory.\<close>

record SQLStore =
  db :: database
  lastAnnouncementSave :: Time
  persistInterval :: Duration
  unappliedAnnouncements :: "announcement list"
  unappliedCCID :: ConsensusChangeID

definition announcementBatchSoftLimit :: nat where
  "announcementBatchSoftLimit = 1000"

definition consensusInfoID :: nat where
  "consensusInfoID = 1"

section \<open>The database layer\<close>

text \<open>
  What the database driver does is outside the program: a statement may fail for reasons
  the program does not control.  Each call is therefore run in an environment that says,
  for every statement the call can issue, whether it fails and with which error, and
  which instant the library stamps on the rows it creates or updates.
\<close>

record gormEnv =
  tx_now :: Time
  begin_err :: "error option"
  create_announcements_err :: "error option"
  upsert_hosts_err :: "error option"
  update_ccid_err :: "error option"
  create_interactions_err :: "error option"
  exec_err :: "error option"
  upsert_autopilot_err :: "error option"
  find_err :: "error option"
  commit_err :: "error option"

text \<open>
  \<^verbatim>\<open>db.Transaction(fc)\<close>: begin, run \<open>fc\<close> on the transaction, roll back when it
  returns an error, commit otherwise.  The result is the error (if any) and the database
  as it is afterwards.
\<close>

definition Transaction ::
  "('e gormEnv_scheme) \<Rightarrow> database \<Rightarrow> (database \<Rightarrow> error + database)
     \<Rightarrow> error option \<times> database" where
  "Transaction env d fc =
     (case begin_err env of
        Some e \<Rightarrow> (Some e, d)
      | None \<Rightarrow>
          (case fc d of
             Inl e \<Rightarrow> (Some e, d)
           | Inr d' \<Rightarrow>
               (case commit_err env of
                  Some e \<Rightarrow> (Some e, d)
                | None \<Rightarrow> (None, d'))))"

text \<open>
  The primary key of a new row is assigned by the database: one more than the largest
  key in the table.  \<^verbatim>\<open>Create\<close> stamps both time columns.
\<close>

definition nextID :: "('m Model_scheme) list \<Rightarrow> nat" where
  "nextID rows = Suc (fold max (map ID rows) 0)"

definition new_row :: "Time \<Rightarrow> ('m Model_scheme) list \<Rightarrow> 'm Model_scheme \<Rightarrow> 'm Model_scheme" where
  "new_row now rows r = r\<lparr>ID := nextID rows, CreatedAt := now, UpdatedAt := now\<rparr>"

fun create_rows ::
  "Time \<Rightarrow> ('m Model_scheme) list \<Rightarrow> ('m Model_scheme) list \<Rightarrow> ('m Model_scheme) list" where
  "create_rows now [] rows = rows"
| "create_rows now (r # rs) rows = create_rows now rs (rows @ [new_row now rows r])"

text \<open>\<^verbatim>\<open>time.Since(t)\<close> is \<^verbatim>\<open>Now().Sub(t)\<close>, which saturates at the bounds of \<^verbatim>\<open>int64\<close>.\<close>

definition maxDuration :: Duration where
  "maxDuration = 2 ^ 63 - 1"

definition minDuration :: Duration where
  "minDuration = - (2 ^ 63)"

definition time_Sub :: "Time \<Rightarrow> Time \<Rightarrow> Duration" where
  "time_Sub t u =
     (if t - u > maxDuration then maxDuration
      else if t - u < minDuration then minDuration
      else t - u)"

text \<open>Decimal rendering of a length, for \<^verbatim>\<open>fmt.Sprintf("%v", len(...))\<close>.\<close>

fun string_of_nat :: "nat \<Rightarrow> string" where
  "string_of_nat n =
     (if n < 10 then [''0123456789'' ! n]
      else string_of_nat (n div 10) @ [''0123456789'' ! (n mod 10)])"

section \<open>Collecting announcements from a consensus change\<close>

text \<open>
  \<^verbatim>\<open>hostdb.ForEachAnnouncement(b, height, fn)\<close> is a parameter: \<open>fea b height\<close> is the
  sequence of \<open>(hostKey, announcement)\<close> pairs that \<open>fn\<close> is called with for block \<open>b\<close>
  scanned at \<open>height\<close>.
\<close>

type_synonym 'b forEachAnnouncement = "'b \<Rightarrow> 64 word \<Rightarrow> (PublicKey \<times> Announcement) list"

text \<open>\<^verbatim>\<open>for range cc.RevertedBlocks { height-- }\<close> on a \<^verbatim>\<open>uint64\<close>.\<close>

fun revert_height :: "'b list \<Rightarrow> 64 word \<Rightarrow> 64 word" where
  "revert_height [] height = height"
| "revert_height (b # bs) height = revert_height bs (height - 1)"

definition mk_announcement :: "PublicKey \<times> Announcement \<Rightarrow> announcement" where
  "mk_announcement p = \<lparr>hostKey = fst p, announcement = snd p\<rparr>"

text \<open>The loop over \<^verbatim>\<open>cc.AppliedBlocks\<close>, appending to \<^verbatim>\<open>newAnnouncements\<close>.\<close>

fun scan_applied ::
  "'b forEachAnnouncement \<Rightarrow> 'b list \<Rightarrow> 64 word \<Rightarrow> announcement list \<Rightarrow> announcement list" where
  "scan_applied fea [] height newAnnouncements = newAnnouncements"
| "scan_applied fea (b # bs) height newAnnouncements =
     scan_applied fea bs (height + 1) (newAnnouncements @ map mk_announcement (fea b height))"

definition newAnnouncements ::
  "'b forEachAnnouncement \<Rightarrow> 'b ConsensusChange \<Rightarrow> announcement list" where
  "newAnnouncements fea cc =
     scan_applied fea (AppliedBlocks cc)
       (revert_height (RevertedBlocks cc) (InitialHeight cc)) []"

section \<open>Flushing announcements and the consensus checkpoint\<close>

text \<open>
  \<^verbatim>\<open>updateCCID\<close>: \<^verbatim>\<open>UPDATE consensus_infos SET ccid = ?, updated_at = ? WHERE id = 1\<close>.
\<close>

definition set_ccid :: "Time \<Rightarrow> ConsensusChangeID \<Rightarrow> dbConsensusInfo \<Rightarrow> dbConsensusInfo" where
  "set_ccid now newCCID ci =
     (if ID ci = consensusInfoID then ci\<lparr>UpdatedAt := now, CCID := newCCID\<rparr> else ci)"

definition updateCCID ::
  "('e gormEnv_scheme) \<Rightarrow> ConsensusChangeID \<Rightarrow> database \<Rightarrow> error + database" where
  "updateCCID env newCCID tx =
     (case update_ccid_err env of
        Some e \<Rightarrow> Inl e
      | None \<Rightarrow>
          Inr (tx\<lparr>consensus_infos := map (set_ccid (tx_now env) newCCID) (consensus_infos tx)\<rparr>))"

text \<open>The two rows \<^verbatim>\<open>insertAnnouncements\<close> builds from one announcement.\<close>

definition host_of :: "announcement \<Rightarrow> dbHost" where
  "host_of a =
     \<lparr>ID = 0, CreatedAt = 0, UpdatedAt = 0,
      PublicKey = hostKey a, Settings = zeroHostSettings,
      TotalScans = 0, LastScan = 0, LastScanSuccess = False, SecondToLastScanSuccess = False,
      Uptime = 0, Downtime = 0, SuccessfulInteractions = 0, FailedInteractions = 0,
      LastAnnouncement = AnnTimestamp (announcement a),
      NetAddress = AnnouncedNetAddress (announcement a)\<rparr>"

definition announcement_row :: "announcement \<Rightarrow> dbAnnouncement" where
  "announcement_row a =
     \<lparr>ID = 0, CreatedAt = 0, UpdatedAt = 0,
      HostKey = hostKey a,
      BlockHeight = Height (Index (announcement a)),
      BlockID = IndexID (Index (announcement a)),
      AnnNetAddress = AnnouncedNetAddress (announcement a)\<rparr>"

text \<open>
  \<^verbatim>\<open>INSERT INTO hosts ... ON CONFLICT (public_key) DO UPDATE SET last_announcement =
  excluded.last_announcement, net_address = excluded.net_address\<close>, one row after the
  other: a row whose public key is in the table updates the two columns of the row that
  has it, any other row is inserted.
\<close>

definition on_conflict_update :: "dbHost \<Rightarrow> dbHost \<Rightarrow> dbHost" where
  "on_conflict_update excluded r =
     (if PublicKey r = PublicKey excluded
      then r\<lparr>LastAnnouncement := LastAnnouncement excluded, NetAddress := NetAddress excluded\<rparr>
      else r)"

definition upsert_host :: "Time \<Rightarrow> dbHost \<Rightarrow> dbHost list \<Rightarrow> dbHost list" where
  "upsert_host now h rows =
     (if PublicKey h \<in> set (map PublicKey rows)
      then map (on_conflict_update h) rows
      else rows @ [new_row now rows h])"

text \<open>
  \<^verbatim>\<open>insertAnnouncements\<close>.  \<^verbatim>\<open>Create\<close> of an empty slice is an error of the
  library (\<^verbatim>\<open>gorm.ErrEmptySlice\<close>).
\<close>

definition ErrEmptySlice :: error where
  "ErrEmptySlice = Err ''empty slice found''"

definition insertAnnouncements ::
  "('e gormEnv_scheme) \<Rightarrow> announcement list \<Rightarrow> database \<Rightarrow> error + database" where
  "insertAnnouncements env as tx =
     (let hs = map host_of as;
          announcements = map announcement_row as
      in if announcements = [] then Inl ErrEmptySlice
         else case create_announcements_err env of
           Some e \<Rightarrow> Inl e
         | None \<Rightarrow>
             (let tx1 = tx\<lparr>host_announcements :=
                             create_rows (tx_now env) announcements (host_announcements tx)\<rparr>
              in case upsert_hosts_err env of
                   Some e \<Rightarrow> Inl e
                 | None \<Rightarrow>
                     Inr (tx1\<lparr>hosts := fold (upsert_host (tx_now env)) hs (hosts tx1)\<rparr>)))"

text \<open>
  The transaction of \<^verbatim>\<open>ProcessConsensusChange\<close>: the buffered announcements, when
  there are any, then the checkpoint.
\<close>

definition flush :: "('e gormEnv_scheme) \<Rightarrow> SQLStore \<Rightarrow> error option \<times> database" where
  "flush env s =
     Transaction env (db s)
       (\<lambda>tx. if length (unappliedAnnouncements s) > 0
             then (case insertAnnouncements env (unappliedAnnouncements s) tx of
                     Inl e \<Rightarrow> Inl e
                   | Inr tx' \<Rightarrow> updateCCID env (unappliedCCID s) tx')
             else updateCCID env (unappliedCCID s) tx)"

text \<open>
  The clock of one call of \<^verbatim>\<open>ProcessConsensusChange\<close>: the instant \<^verbatim>\<open>time.Since\<close>
  reads and the instant \<^verbatim>\<open>time.Now()\<close> returns after the flush.
\<close>

record callEnv = gormEnv +
  since_now :: Time
  save_now :: Time

text \<open>The store after the two appends, before the flush is decided.\<close>

definition enqueue :: "'b forEachAnnouncement \<Rightarrow> SQLStore \<Rightarrow> 'b ConsensusChange \<Rightarrow> SQLStore" where
  "enqueue fea s cc =
     s\<lparr>unappliedAnnouncements := unappliedAnnouncements s @ newAnnouncements fea cc,
       unappliedCCID := ChangeID cc\<rparr>"

definition flush_due :: "callEnv \<Rightarrow> SQLStore \<Rightarrow> bool" where
  "flush_due env s =
     (time_Sub (since_now env) (lastAnnouncementSave s) > persistInterval s
      \<or> length (unappliedAnnouncements s) \<ge> announcementBatchSoftLimit)"

definition failed_to_apply :: "nat \<Rightarrow> string" where
  "failed_to_apply n =
     ''failed to apply '' @ string_of_nat n @ '' announcements - should never happen''"

text \<open>
  \<^verbatim>\<open>ProcessConsensusChange\<close> returns nothing; the model returns the store after the
  call and the lines printed.
\<close>

definition ProcessConsensusChange ::
  "'b forEachAnnouncement \<Rightarrow> callEnv \<Rightarrow> SQLStore \<Rightarrow> 'b ConsensusChange
     \<Rightarrow> SQLStore \<times> string list" where
  "ProcessConsensusChange fea env s cc =
     (let s1 = enqueue fea s cc
      in if flush_due env s1
         then (case flush env s1 of
                 (err, d) \<Rightarrow>
                   (s1\<lparr>db := d, lastAnnouncementSave := save_now env,
                       unappliedAnnouncements := []\<rparr>,
                    (case err of
                       Some e \<Rightarrow> [failed_to_apply (length (unappliedAnnouncements s1))]
                     | None \<Rightarrow> [])))
         else (s1, []))"

text \<open>A sequence of calls, each with its own environment.\<close>

fun process_all ::
  "'b forEachAnnouncement \<Rightarrow> SQLStore \<Rightarrow> (callEnv \<times> 'b ConsensusChange) list \<Rightarrow> SQLStore" where
  "process_all fea s [] = s"
| "process_all fea s (c # cs) =
     process_all fea (fst (ProcessConsensusChange fea (fst c) s (snd c))) cs"

section \<open>Recording host interactions\<close>


text \<open>
  Decoding a scan result is left to the caller of the model: \<open>unmarshalSettings\<close> is
  \<^verbatim>\<open>json.Unmarshal(interaction.Result, &sr)\<close> followed by
  \<^verbatim>\<open>gobEncode(convertHostSettings(sr.Settings))\<close>, and \<open>unscannedSettings\<close> is that
  encoding for the zero \<^verbatim>\<open>hostdb.ScanResult\<close>, which a failed scan leaves in \<^verbatim>\<open>sr\<close>.
\<close>

record scanCodec =
  unmarshalSettings :: "string \<Rightarrow> error + hostSettings"
  unscannedSettings :: hostSettings

text \<open>
  The statements of the query, each with the arguments bound to its placeholders in the
  order the source appends them.  \<open>timeColumn\<close> is the value of \<^verbatim>\<open>timeToAddTo\<close>.
\<close>

datatype timeColumn = uptime | downtime

datatype statement =
    UpdateInteractionCounters int int PublicKey
  | UpdateScan timeColumn bool int int hostSettings

text \<open>
  What a statement does to one row of \<^verbatim>\<open>hosts\<close>.  The first statement has
  \<^verbatim>\<open>WHERE public_key = ?\<close>; the scan statement has no \<^verbatim>\<open>WHERE\<close>.  The right-hand
  sides of \<^verbatim>\<open>SET\<close> read the row as it was before the statement.
\<close>

fun exec_statement :: "statement \<Rightarrow> dbHost \<Rightarrow> dbHost" where
  "exec_statement (UpdateInteractionCounters successful failed key) h =
     (if PublicKey h = key
      then h\<lparr>SuccessfulInteractions := SuccessfulInteractions h + successful,
             FailedInteractions := FailedInteractions h + failed\<rparr>
      else h)"
| "exec_statement (UpdateScan timeToAddTo success ts1 ts2 settings) h =
     (let elapsed = (if LastScan h = 0 then LastScan h else ts1 - LastScan h);
          h1 = h\<lparr>TotalScans := TotalScans h + 1,
                 SecondToLastScanSuccess := LastScanSuccess h,
                 LastScanSuccess := success,
                 LastScan := ts2,
                 Settings := settings\<rparr>
      in case timeToAddTo of
           uptime \<Rightarrow> h1\<lparr>Uptime := elapsed\<rparr>
         | downtime \<Rightarrow> h1\<lparr>Downtime := elapsed\<rparr>)"





section \<open>Listing hosts\<close>

text \<open>\<^verbatim>\<open>convert\<close>: a host row as a \<^verbatim>\<open>hostdb.Host\<close>; the zero time is \<open>None\<close>.\<close>

definition convert :: "dbHost \<Rightarrow> Host" where
  "convert h =
     \<lparr>KnownSince = CreatedAt h,
      H_NetAddress = NetAddress h,
      H_Interactions =
        \<lparr>I_TotalScans = TotalScans h,
         I_LastScan = (if LastScan h > 0 then Some (LastScan h) else None),
         I_LastScanSuccess = LastScanSuccess h,
         I_SecondToLastScanSuccess = SecondToLastScanSuccess h,
         I_Uptime = Uptime h,
         I_Downtime = Downtime h,
         I_SuccessfulInteractions = SuccessfulInteractions h,
         I_FailedInteractions = FailedInteractions h\<rparr>,
      H_PublicKey = PublicKey h,
      H_Settings = (if Settings h = zeroHostSettings then None else Some (Settings h))\<rparr>"

text \<open>
  \<^verbatim>\<open>Limit(max)\<close>: the first \<open>max\<close> rows in key order; a limit that is not positive
  puts no \<^verbatim>\<open>LIMIT\<close> into the query.
\<close>

definition gorm_limit :: "int \<Rightarrow> 'a list \<Rightarrow> 'a list" where
  "gorm_limit n rows = (if 0 < n then take (nat n) rows else rows)"

text \<open>
  \<^verbatim>\<open>Hosts\<close>: the query is \<^verbatim>\<open>Table("hosts").Limit(max)\<close>, read in batches, every
  row of a batch converted and appended.  The parameter \<^verbatim>\<open>notSince\<close> occurs in no
  expression of the body.
\<close>

definition Hosts :: "('e gormEnv_scheme) \<Rightarrow> database \<Rightarrow> Time \<Rightarrow> int \<Rightarrow> error + Host list" where
  "Hosts env d notSince maxHosts =
     (case find_err env of
        Some e \<Rightarrow> Inl e
      | None \<Rightarrow> Inr (map convert (gorm_limit maxHosts (hosts d))))"

section \<open>Autopilots\<close>

text \<open>
  \<^verbatim>\<open>ap.Config.Validate()\<close> and \<^verbatim>\<open>json.Marshal(ap.Config)\<close> are parameters of the
  model.
\<close>

record 'c configCodec =
  Validate :: "'c \<Rightarrow> error option"
  json_Marshal :: "'c \<Rightarrow> error + string"

text \<open>
  \<^verbatim>\<open>INSERT INTO autopilots ... ON CONFLICT (identifier) DO UPDATE SET\<close> every column
  but the primary key and \<^verbatim>\<open>created_at\<close> (\<^verbatim>\<open>UpdateAll\<close>).
\<close>

definition on_conflict_update_all :: "Time \<Rightarrow> dbAutopilot \<Rightarrow> dbAutopilot \<Rightarrow> dbAutopilot" where
  "on_conflict_update_all now excluded r =
     (if Identifier r = Identifier excluded
      then r\<lparr>UpdatedAt := now, Identifier := Identifier excluded, Config := Config excluded,
             CurrentPeriod := CurrentPeriod excluded\<rparr>
      else r)"

definition upsert_autopilot :: "Time \<Rightarrow> dbAutopilot \<Rightarrow> dbAutopilot list \<Rightarrow> dbAutopilot list" where
  "upsert_autopilot now a rows =
     (if Identifier a \<in> set (map Identifier rows)
      then map (on_conflict_update_all now a) rows
      else rows @ [new_row now rows a])"

definition UpdateAutopilot ::
  "'c configCodec \<Rightarrow> ('e gormEnv_scheme) \<Rightarrow> database \<Rightarrow> 'c Autopilot \<Rightarrow> error option \<times> database" where
  "UpdateAutopilot codec env d ap =
     (if A_ID ap = [] then (Some (Err ''autopilot ID cannot be empty''), d)
      else case Validate codec (A_Config ap) of
        Some e \<Rightarrow> (Some e, d)
      | None \<Rightarrow>
          (case json_Marshal codec (A_Config ap) of
             Inl e \<Rightarrow> (Some e, d)
           | Inr cfg \<Rightarrow>
               (case upsert_autopilot_err env of
                  Some e \<Rightarrow> (Some e, d)
                | None \<Rightarrow>
                    (None,
                     d\<lparr>autopilots :=
                         upsert_autopilot (tx_now env)
                           \<lparr>ID = 0, CreatedAt = 0, UpdatedAt = 0,
                            Identifier = A_ID ap, Config = cfg,
                            CurrentPeriod = A_CurrentPeriod ap\<rparr>
                           (autopilots d)\<rparr>))))"

section \<open>Runs without a flush\<close>

text \<open>
  A sequence of calls during which, at every call, the buffer (with the announcements
  of that call) stays below the soft limit and the time since the last save does not
  exceed the persist interval.
\<close>

fun quiet ::
  "'b forEachAnnouncement \<Rightarrow> SQLStore \<Rightarrow> (callEnv \<times> 'b ConsensusChange) list \<Rightarrow> bool" where
  "quiet fea s [] = True"
| "quiet fea s (c # cs) =
     (length (unappliedAnnouncements s @ newAnnouncements fea (snd c)) < announcementBatchSoftLimit
      \<and> time_Sub (since_now (fst c)) (lastAnnouncementSave s) \<le> persistInterval s
      \<and> quiet fea (fst (ProcessConsensusChange fea (fst c) s (snd c))) cs)"

section \<open>Notions used to state the properties\<close>

text \<open>A host row with the two columns an announcement may write blanked out.\<close>

definition without_announcement :: "dbHost \<Rightarrow> dbHost" where
  "without_announcement r = r\<lparr>LastAnnouncement := 0, NetAddress := []\<rparr>"

text \<open>
  Every row of key \<open>k\<close> carries the announcement time \<open>t\<close> and the address \<open>addr\<close>.
\<close>

definition announced :: "PublicKey \<Rightarrow> Time \<Rightarrow> string \<Rightarrow> dbHost list \<Rightarrow> bool" where
  "announced k t addr rows =
     list_all (\<lambda>r. PublicKey r \<noteq> k \<or> (LastAnnouncement r = t \<and> NetAddress r = addr)) rows"




section \<open>Example inputs\<close>

text \<open>
  Concrete values on which the theorems below are instantiated.  In the examples a
  block is the list of the announcements it holds, and scanning it at a height stamps
  that height on each of them.
\<close>

definition ex_fea :: "((PublicKey \<times> Announcement) list) forEachAnnouncement" where
  "ex_fea b height = map (\<lambda>p. (fst p, (snd p)\<lparr>Index := (Index (snd p))\<lparr>Height := height\<rparr>\<rparr>)) b"

definition ex_ann :: "Time \<Rightarrow> string \<Rightarrow> Announcement" where
  "ex_ann t addr = \<lparr>Index = \<lparr>Height = 0, IndexID = ''blk''\<rparr>, AnnTimestamp = t,
                     AnnouncedNetAddress = addr\<rparr>"

definition ex_host :: dbHost where
  "ex_host =
     \<lparr>ID = 1, CreatedAt = 1, UpdatedAt = 2,
      PublicKey = ''A'', Settings = ''s0'',
      TotalScans = 3, LastScan = 100, LastScanSuccess = True, SecondToLastScanSuccess = False,
      Uptime = 5, Downtime = 7, SuccessfulInteractions = 4, FailedInteractions = 1,
      LastAnnouncement = 10, NetAddress = ''a:1''\<rparr>"

definition ex_new_host :: dbHost where
  "ex_new_host =
     \<lparr>ID = 2, CreatedAt = 3, UpdatedAt = 3,
      PublicKey = ''B'', Settings = zeroHostSettings,
      TotalScans = 0, LastScan = 0, LastScanSuccess = False, SecondToLastScanSuccess = False,
      Uptime = 0, Downtime = 0, SuccessfulInteractions = 0, FailedInteractions = 0,
      LastAnnouncement = 20, NetAddress = ''b:1''\<rparr>"

definition ex_scanned_host :: dbHost where
  "ex_scanned_host =
     \<lparr>ID = 3, CreatedAt = 5, UpdatedAt = 5,
      PublicKey = ''D'', Settings = ''s1'',
      TotalScans = 1, LastScan = 100, LastScanSuccess = True, SecondToLastScanSuccess = False,
      Uptime = 0, Downtime = 0, SuccessfulInteractions = 1, FailedInteractions = 0,
      LastAnnouncement = 40, NetAddress = ''d:1''\<rparr>"

definition ex_db :: database where
  "ex_db =
     \<lparr>hosts = [ex_host, ex_new_host],
      host_announcements = [],
      host_interactions = [],
      consensus_infos = [\<lparr>ID = 1, CreatedAt = 0, UpdatedAt = 0, CCID = ''c0''\<rparr>],
      autopilots = []\<rparr>"

definition ex_db_scanned :: database where
  "ex_db_scanned = ex_db\<lparr>hosts := [ex_scanned_host, ex_new_host]\<rparr>"

definition ex_store :: SQLStore where
  "ex_store =
     \<lparr>db = ex_db, lastAnnouncementSave = 0, persistInterval = 10,
      unappliedAnnouncements = [], unappliedCCID = ''c0''\<rparr>"

definition ex_env :: callEnv where
  "ex_env =
     \<lparr>tx_now = 50, begin_err = None, create_announcements_err = None,
      upsert_hosts_err = None, update_ccid_err = None, create_interactions_err = None,
      exec_err = None, upsert_autopilot_err = None, find_err = None, commit_err = None,
      since_now = 50, save_now = 51\<rparr>"

definition ex_env_commit_fails :: callEnv where
  "ex_env_commit_fails = ex_env\<lparr>commit_err := Some (Err ''commit failed'')\<rparr>"

definition ex_env_early :: callEnv where
  "ex_env_early = ex_env\<lparr>since_now := 5\<rparr>"

definition ex_env_later :: callEnv where
  "ex_env_later = ex_env\<lparr>since_now := 70, save_now := 71\<rparr>"

definition ex_batch :: "announcement list" where
  "ex_batch = [\<lparr>hostKey = ''A'', announcement = ex_ann 30 ''a:2''\<rparr>,
               \<lparr>hostKey = ''C'', announcement = ex_ann 31 ''c:1''\<rparr>]"

definition ex_config_codec :: "string configCodec" where
  "ex_config_codec =
     \<lparr>Validate = (\<lambda>c. if c = ''bad'' then Some (Err ''invalid config'') else None),
      json_Marshal = (\<lambda>c. Inr (''json:'' @ c))\<rparr>"

definition ex_autopilot :: "string \<Rightarrow> string \<Rightarrow> string Autopilot" where
  "ex_autopilot ident cfg = \<lparr>A_ID = ident, A_Config = cfg, A_CurrentPeriod = 3\<rparr>"

definition ex_autopilot_row :: dbAutopilot where
  "ex_autopilot_row =
     \<lparr>ID = 1, CreatedAt = 4, UpdatedAt = 4, Identifier = ''ap1'', Config = ''json:old'',
      CurrentPeriod = 2\<rparr>"

definition ex_db_autopilot :: database where
  "ex_db_autopilot = ex_db\<lparr>autopilots := [ex_autopilot_row]\<rparr>"

definition ex_codec :: scanCodec where
  "ex_codec = \<lparr>unmarshalSettings = (\<lambda>r. if r = [] then Inl (Err ''unexpected end of JSON input'')
                                          else Inr (''gob:'' @ r)),
               unscannedSettings = ''gob:zero''\<rparr>"

definition ex_scan :: "bool \<Rightarrow> Time \<Rightarrow> Interaction" where
  "ex_scan ok t = \<lparr>Result = ''{}'', Success = ok, Timestamp = t, Type = ''scan''\<rparr>"

definition ex_cc :: "((PublicKey \<times> Announcement) list) ConsensusChange" where
  "ex_cc =
     \<lparr>ChangeID = ''c1'', RevertedBlocks = [[]],
      AppliedBlocks = [[(''A'', ex_ann 30 ''a:2'')], [(''C'', ex_ann 31 ''c:1'')]],
      InitialHeight = 7\<rparr>"

definition ex_cc2 :: "((PublicKey \<times> Announcement) list) ConsensusChange" where
  "ex_cc2 =
     \<lparr>ChangeID = ''c2'', RevertedBlocks = [], AppliedBlocks = [[]], InitialHeight = 8\<rparr>"

section \<open>Height attribution\<close>




section \<open>Unfolding the examples\<close>

lemmas ex_defs = ex_fea_def ex_ann_def ex_host_def ex_new_host_def ex_db_def ex_store_def ex_env_def
  ex_env_commit_fails_def ex_env_early_def ex_env_later_def ex_cc_def ex_cc2_def
  ex_codec_def ex_scan_def ex_batch_def ex_config_codec_def ex_autopilot_def
  ex_autopilot_row_def ex_db_autopilot_def ex_scanned_host_def ex_db_scanned_def

lemmas pcc_defs = ProcessConsensusChange_def flush_due_def enqueue_def time_Sub_def maxDuration_def
  minDuration_def flush_def Transaction_def newAnnouncements_def mk_announcement_def
  insertAnnouncements_def updateCCID_def Let_def announcement_row_def host_of_def new_row_def
  nextID_def upsert_host_def on_conflict_update_def set_ccid_def consensusInfoID_def
  announcementBatchSoftLimit_def failed_to_apply_def

section \<open>The flush is one transaction\<close>

lemma Transaction_failed: "Transaction env d fc = (Some e, d') \<Longrightarrow> d' = d"
  by (auto simp: Transaction_def split: option.splits sum.splits)

lemma Transaction_committed:
  "Transaction env d fc = (None, d') \<Longrightarrow> fc d = Inr d'"
  by (auto simp: Transaction_def split: option.splits sum.splits)

lemma insertAnnouncements_Inr:
  "insertAnnouncements env as tx = Inr tx' \<Longrightarrow>
     tx' = tx\<lparr>host_announcements :=
                 create_rows (tx_now env) (map announcement_row as) (host_announcements tx),
              hosts := fold (upsert_host (tx_now env)) (map host_of as) (hosts tx)\<rparr>"
  by (auto simp: insertAnnouncements_def Let_def split: option.splits if_splits)

lemma updateCCID_Inr:
  "updateCCID env c tx = Inr tx' \<Longrightarrow>
     tx' = tx\<lparr>consensus_infos := map (set_ccid (tx_now env) c) (consensus_infos tx)\<rparr>"
  by (auto simp: updateCCID_def split: option.splits)

lemma flush_failed: "flush env s = (Some e, d) \<Longrightarrow> d = db s"
  unfolding flush_def by (rule Transaction_failed)

lemma flush_committed:
  assumes "flush env s = (None, d)"
  shows "d = (db s)\<lparr>host_announcements :=
                 create_rows (tx_now env) (map announcement_row (unappliedAnnouncements s))
                   (host_announcements (db s)),
              hosts := fold (upsert_host (tx_now env)) (map host_of (unappliedAnnouncements s))
                   (hosts (db s)),
              consensus_infos := map (set_ccid (tx_now env) (unappliedCCID s))
                   (consensus_infos (db s))\<rparr>"
proof (cases "unappliedAnnouncements s = []")
  case True
  from assms have "updateCCID env (unappliedCCID s) (db s) = Inr d"
    unfolding flush_def using True by (auto dest: Transaction_committed)
  then show ?thesis using True by (auto dest!: updateCCID_Inr)
next
  case False
  from assms have "(case insertAnnouncements env (unappliedAnnouncements s) (db s) of
                     Inl e \<Rightarrow> Inl e
                   | Inr tx' \<Rightarrow> updateCCID env (unappliedCCID s) tx') = Inr d"
    unfolding flush_def using False by (auto dest: Transaction_committed)
  then obtain tx' where 1: "insertAnnouncements env (unappliedAnnouncements s) (db s) = Inr tx'"
    and 2: "updateCCID env (unappliedCCID s) tx' = Inr d"
    by (auto split: sum.splits)
  show ?thesis
    using insertAnnouncements_Inr[OF 1] updateCCID_Inr[OF 2] by simp
qed

text \<open>
  Claim C1.  When a call of \<^verbatim>\<open>ProcessConsensusChange\<close> flushes, the announcement
  rows, the host upserts and the checkpoint update are committed together or not at
  all.  The database after the call is the one the transaction leaves, and a line is
  printed exactly when the transaction returns an error.  If it fails the database is
  exactly what it was before the call; if it succeeds the database holds the
  announcement rows of the whole batch, the upserted hosts and the new checkpoint.
\<close>

theorem C1_flush_atomic:
  assumes "flush_due env (enqueue fea s cc)"
  shows "db (fst (ProcessConsensusChange fea env s cc)) = snd (flush env (enqueue fea s cc))
       \<and> (snd (ProcessConsensusChange fea env s cc) = []) =
           (fst (flush env (enqueue fea s cc)) = None)
       \<and> (snd (ProcessConsensusChange fea env s cc) \<noteq> [] \<longrightarrow>
            db (fst (ProcessConsensusChange fea env s cc)) = db s)
       \<and> (snd (ProcessConsensusChange fea env s cc) = [] \<longrightarrow>
            db (fst (ProcessConsensusChange fea env s cc)) =
              (db s)\<lparr>host_announcements :=
                 create_rows (tx_now env)
                   (map announcement_row (unappliedAnnouncements s @ newAnnouncements fea cc))
                   (host_announcements (db s)),
              hosts := fold (upsert_host (tx_now env))
                   (map host_of (unappliedAnnouncements s @ newAnnouncements fea cc))
                   (hosts (db s)),
              consensus_infos := map (set_ccid (tx_now env) (ChangeID cc))
                   (consensus_infos (db s))\<rparr>)"
proof (cases "flush env (enqueue fea s cc)")
  case (Pair err d)
  show ?thesis
  proof (cases err)
    case None
    with Pair have "flush env (enqueue fea s cc) = (None, d)" by simp
    from flush_committed[OF this] Pair None assms show ?thesis
      by (simp add: ProcessConsensusChange_def Let_def enqueue_def)
  next
    case (Some e)
    with Pair have "flush env (enqueue fea s cc) = (Some e, d)" by simp
    from flush_failed[OF this] Pair Some assms show ?thesis
      by (simp add: ProcessConsensusChange_def Let_def enqueue_def)
  qed
qed

text \<open>
  The theorem on the example store: a flush that commits, and one whose commit fails.
\<close>

theorem C1_flush_atomic_witness:
  "flush_due ex_env (enqueue ex_fea ex_store ex_cc)
   \<and> snd (ProcessConsensusChange ex_fea ex_env ex_store ex_cc) = []
   \<and> map HostKey (host_announcements (db (fst (ProcessConsensusChange ex_fea ex_env ex_store ex_cc))))
       = [''A'', ''C'']
   \<and> map BlockHeight (host_announcements (db (fst (ProcessConsensusChange ex_fea ex_env ex_store ex_cc))))
       = [6, 7]
   \<and> map PublicKey (hosts (db (fst (ProcessConsensusChange ex_fea ex_env ex_store ex_cc))))
       = [''A'', ''B'', ''C'']
   \<and> map CCID (consensus_infos (db (fst (ProcessConsensusChange ex_fea ex_env ex_store ex_cc))))
       = [''c1'']
   \<and> flush_due ex_env_commit_fails (enqueue ex_fea ex_store ex_cc)
   \<and> snd (ProcessConsensusChange ex_fea ex_env_commit_fails ex_store ex_cc) \<noteq> []
   \<and> db (fst (ProcessConsensusChange ex_fea ex_env_commit_fails ex_store ex_cc)) = ex_db"
proof -
  have due: "flush_due ex_env (enqueue ex_fea ex_store ex_cc)"
    by (simp add: ex_defs flush_due_def enqueue_def time_Sub_def maxDuration_def minDuration_def)
  have due': "flush_due ex_env_commit_fails (enqueue ex_fea ex_store ex_cc)"
    by (simp add: ex_defs flush_due_def enqueue_def time_Sub_def maxDuration_def minDuration_def)
  have ok: "snd (ProcessConsensusChange ex_fea ex_env ex_store ex_cc) = []"
    by (simp add: ex_defs pcc_defs)
  have bad: "snd (ProcessConsensusChange ex_fea ex_env_commit_fails ex_store ex_cc) \<noteq> []"
    by (simp add: ex_defs pcc_defs)
  have batch: "newAnnouncements ex_fea ex_cc =
      [\<lparr>hostKey = ''A'', announcement = (ex_ann 30 ''a:2'')\<lparr>Index := \<lparr>Height = 6, IndexID = ''blk''\<rparr>\<rparr>\<rparr>,
       \<lparr>hostKey = ''C'', announcement = (ex_ann 31 ''c:1'')\<lparr>Index := \<lparr>Height = 7, IndexID = ''blk''\<rparr>\<rparr>\<rparr>]"
    by (simp add: ex_defs newAnnouncements_def mk_announcement_def)
  from C1_flush_atomic[OF due, THEN conjunct2, THEN conjunct2] ok
  have 1: "db (fst (ProcessConsensusChange ex_fea ex_env ex_store ex_cc)) =
     (db ex_store)\<lparr>host_announcements :=
                 create_rows (tx_now ex_env)
                   (map announcement_row (unappliedAnnouncements ex_store @ newAnnouncements ex_fea ex_cc))
                   (host_announcements (db ex_store)),
              hosts := fold (upsert_host (tx_now ex_env))
                   (map host_of (unappliedAnnouncements ex_store @ newAnnouncements ex_fea ex_cc))
                   (hosts (db ex_store)),
              consensus_infos := map (set_ccid (tx_now ex_env) (ChangeID ex_cc))
                   (consensus_infos (db ex_store))\<rparr>"
    by simp
  from C1_flush_atomic[OF due', THEN conjunct2, THEN conjunct2] bad
  have 2: "db (fst (ProcessConsensusChange ex_fea ex_env_commit_fails ex_store ex_cc)) = db ex_store"
    by simp
  show ?thesis
    unfolding 1 2 batch using due due' ok bad
    by (simp add: ex_store_def ex_db_def ex_env_def ex_cc_def ex_ann_def ex_host_def ex_new_host_def
        announcement_row_def host_of_def new_row_def nextID_def upsert_host_def
        on_conflict_update_def set_ccid_def consensusInfoID_def)
qed

section \<open>A flush that fails\<close>

text \<open>
  Claim C3.  The claim asks that a failed flush keeps the buffer for a retry and that
  the failure is logged, not propagated.  The code prints the failure, and then clears
  the buffer whether or not the transaction committed.  On the example store a flush
  whose commit fails prints one line, leaves the database as it was and leaves an
  empty buffer: the two announcements are gone.  The next flush that succeeds then
  advances the persisted checkpoint to \<open>c2\<close> although no announcement of the change
  \<open>c1\<close> was ever written.
\<close>

theorem C3_failed_flush_clears_buffer:
  "flush_due ex_env_commit_fails (enqueue ex_fea ex_store ex_cc)
   \<and> length (unappliedAnnouncements (enqueue ex_fea ex_store ex_cc)) = 2
   \<and> snd (ProcessConsensusChange ex_fea ex_env_commit_fails ex_store ex_cc) =
        [''failed to apply 2 announcements - should never happen'']
   \<and> db (fst (ProcessConsensusChange ex_fea ex_env_commit_fails ex_store ex_cc)) = ex_db
   \<and> unappliedAnnouncements (fst (ProcessConsensusChange ex_fea ex_env_commit_fails ex_store ex_cc)) = []
   \<and> host_announcements (db (process_all ex_fea ex_store
        [(ex_env_commit_fails, ex_cc), (ex_env_later, ex_cc2)])) = []
   \<and> map CCID (consensus_infos (db (process_all ex_fea ex_store
        [(ex_env_commit_fails, ex_cc), (ex_env_later, ex_cc2)]))) = [''c2'']"
  by (simp add: ex_defs pcc_defs)

section \<open>Deferred flush\<close>

lemma no_flush_step:
  assumes "length (unappliedAnnouncements s @ newAnnouncements fea cc) < announcementBatchSoftLimit"
    and "time_Sub (since_now env) (lastAnnouncementSave s) \<le> persistInterval s"
  shows "ProcessConsensusChange fea env s cc = (enqueue fea s cc, [])"
  using assms by (simp add: ProcessConsensusChange_def flush_due_def enqueue_def Let_def)

lemma quiet_take: "quiet fea s calls \<Longrightarrow> quiet fea s (take n calls)"
proof (induction calls arbitrary: s n)
  case Nil
  then show ?case by simp
next
  case (Cons c cs)
  then show ?case by (cases n) simp_all
qed

lemma quiet_run:
  "quiet fea s calls \<Longrightarrow>
     process_all fea s calls =
       s\<lparr>unappliedAnnouncements :=
            unappliedAnnouncements s @ concat (map (\<lambda>c. newAnnouncements fea (snd c)) calls),
         unappliedCCID := (if calls = [] then unappliedCCID s else ChangeID (snd (last calls)))\<rparr>"
proof (induction calls arbitrary: s)
  case Nil
  show ?case by simp
next
  case (Cons c cs)
  from Cons.prems have step: "ProcessConsensusChange fea (fst c) s (snd c) = (enqueue fea s (snd c), [])"
    by (simp add: no_flush_step)
  with Cons.prems have "quiet fea (enqueue fea s (snd c)) cs" by simp
  from Cons.IH[OF this] step show ?case
    by (simp add: enqueue_def)
qed

text \<open>
  Claim C4.  Along a sequence of calls of \<^verbatim>\<open>ProcessConsensusChange\<close> during which
  the buffer stays below the soft limit and the time since the last save does not
  exceed the persist interval (in particular when it stays below it), nothing is
  committed: after every call of the sequence the database is the one before the
  sequence (checkpoint row and announcement table included), the buffer holds all
  announcements collected so far, and the in-memory marker is the identifier of the
  change just processed.
\<close>

theorem C4_flush_deferred:
  assumes "quiet fea s calls" and "n \<le> length calls"
  shows "db (process_all fea s (take n calls)) = db s
       \<and> lastAnnouncementSave (process_all fea s (take n calls)) = lastAnnouncementSave s
       \<and> unappliedAnnouncements (process_all fea s (take n calls)) =
           unappliedAnnouncements s @ concat (map (\<lambda>c. newAnnouncements fea (snd c)) (take n calls))
       \<and> (0 < n \<longrightarrow>
            unappliedCCID (process_all fea s (take n calls)) = ChangeID (snd (calls ! (n - 1))))"
proof -
  from assms(1) have q: "quiet fea s (take n calls)" by (rule quiet_take)
  have ne: "take n calls \<noteq> []" if "0 < n"
    using that assms(2) by auto
  have "last (take n calls) = calls ! (n - 1)" if "0 < n"
  proof -
    have "last (take n calls) = take n calls ! (length (take n calls) - 1)"
      using ne[OF that] by (rule last_conv_nth)
    also have "length (take n calls) = n"
      using assms(2) by simp
    also have "take n calls ! (n - 1) = calls ! (n - 1)"
      using that by simp
    finally show ?thesis .
  qed
  with ne show ?thesis
    unfolding quiet_run[OF q] by simp
qed

text \<open>Two calls on the example store, both before the persist interval has passed.\<close>

theorem C4_flush_deferred_witness:
  "quiet ex_fea ex_store [(ex_env_early, ex_cc), (ex_env_early, ex_cc2)]
   \<and> (2::nat) \<le> length [(ex_env_early, ex_cc), (ex_env_early, ex_cc2)]
   \<and> db (process_all ex_fea ex_store [(ex_env_early, ex_cc), (ex_env_early, ex_cc2)]) = ex_db
   \<and> length (unappliedAnnouncements
        (process_all ex_fea ex_store [(ex_env_early, ex_cc), (ex_env_early, ex_cc2)])) = 2
   \<and> unappliedCCID (process_all ex_fea ex_store [(ex_env_early, ex_cc), (ex_env_early, ex_cc2)]) = ''c2''"
proof -
  have q: "quiet ex_fea ex_store [(ex_env_early, ex_cc), (ex_env_early, ex_cc2)]"
    by (simp add: ex_defs pcc_defs)
  have n: "(2::nat) \<le> length [(ex_env_early, ex_cc), (ex_env_early, ex_cc2)]" by simp
  from C4_flush_deferred[OF q n] q show ?thesis
    by (simp add: ex_defs newAnnouncements_def mk_announcement_def)
qed

section \<open>What a committed call of RecordHostInteractions does\<close>





lemma counters_fields [simp]:
  "PublicKey (exec_statement (UpdateInteractionCounters a b k) h) = PublicKey h"
  "TotalScans (exec_statement (UpdateInteractionCounters a b k) h) = TotalScans h"
  "LastScan (exec_statement (UpdateInteractionCounters a b k) h) = LastScan h"
  "LastScanSuccess (exec_statement (UpdateInteractionCounters a b k) h) = LastScanSuccess h"
  "SecondToLastScanSuccess (exec_statement (UpdateInteractionCounters a b k) h) =
     SecondToLastScanSuccess h"
  "Uptime (exec_statement (UpdateInteractionCounters a b k) h) = Uptime h"
  "Downtime (exec_statement (UpdateInteractionCounters a b k) h) = Downtime h"
  "Settings (exec_statement (UpdateInteractionCounters a b k) h) = Settings h"
  "SuccessfulInteractions (exec_statement (UpdateInteractionCounters a b k) h) =
     SuccessfulInteractions h + (if PublicKey h = k then a else 0)"
  "FailedInteractions (exec_statement (UpdateInteractionCounters a b k) h) =
     FailedInteractions h + (if PublicKey h = k then b else 0)"
  by simp_all
















section \<open>The host upsert of an announcement batch\<close>

lemma on_conflict_update_frame [simp]:
  "without_announcement (on_conflict_update h r) = without_announcement r"
  "PublicKey (on_conflict_update h r) = PublicKey r"
  by (simp_all add: on_conflict_update_def without_announcement_def)

lemma new_row_host [simp]:
  "PublicKey (new_row now rows (h::dbHost)) = PublicKey h"
  "LastAnnouncement (new_row now rows (h::dbHost)) = LastAnnouncement h"
  "NetAddress (new_row now rows (h::dbHost)) = NetAddress h"
  by (simp_all add: new_row_def)

lemma on_conflict_update_keys:
  "map PublicKey (map (on_conflict_update h) rows) = map PublicKey rows"
  by (simp add: comp_def)

lemma upsert_host_keys:
  "set (map PublicKey (upsert_host now h rows)) = insert (PublicKey h) (set (map PublicKey rows))"
proof (cases "PublicKey h \<in> set (map PublicKey rows)")
  case True
  then have "upsert_host now h rows = map (on_conflict_update h) rows"
    by (simp add: upsert_host_def)
  with True show ?thesis
    unfolding on_conflict_update_keys by (simp add: on_conflict_update_keys insert_absorb)
next
  case False
  then have "upsert_host now h rows = rows @ [new_row now rows h]"
    by (simp add: upsert_host_def)
  then show ?thesis by simp
qed

lemma upsert_host_distinct:
  "distinct (map PublicKey rows) \<Longrightarrow> distinct (map PublicKey (upsert_host now h rows))"
  by (simp add: upsert_host_def comp_def)

lemma upsert_host_extends:
  "\<exists>new. map without_announcement (upsert_host now h rows) = map without_announcement rows @ new"
  by (simp add: upsert_host_def comp_def)

lemma upserts_keys:
  "set (map PublicKey (fold (upsert_host now) hs rows)) =
     set (map PublicKey rows) \<union> set (map PublicKey hs)"
proof (induction hs arbitrary: rows)
  case Nil
  show ?case by simp
next
  case (Cons h hs)
  show ?case
    unfolding fold_simps Cons.IH upsert_host_keys by auto
qed

lemma upserts_distinct:
  "distinct (map PublicKey rows) \<Longrightarrow> distinct (map PublicKey (fold (upsert_host now) hs rows))"
  by (induction hs arbitrary: rows) (simp_all add: upsert_host_distinct)

lemma upserts_extend:
  "\<exists>new. map without_announcement (fold (upsert_host now) hs rows) =
           map without_announcement rows @ new"
proof (induction hs arbitrary: rows)
  case Nil
  show ?case by simp
next
  case (Cons h hs)
  obtain new1 where 1: "map without_announcement (upsert_host now h rows) =
      map without_announcement rows @ new1"
    using upsert_host_extends by blast
  obtain new2 where "map without_announcement (fold (upsert_host now) hs (upsert_host now h rows)) =
      map without_announcement (upsert_host now h rows) @ new2"
    using Cons.IH by blast
  with 1 show ?case by simp
qed

lemma upsert_host_announced:
  "announced (PublicKey h) (LastAnnouncement h) (NetAddress h) (upsert_host now h rows)"
proof (cases "PublicKey h \<in> set (map PublicKey rows)")
  case True
  have "list_all (\<lambda>r. PublicKey r \<noteq> PublicKey h
        \<or> (LastAnnouncement r = LastAnnouncement h \<and> NetAddress r = NetAddress h))
          (map (on_conflict_update h) rows)"
    by (induction rows) (simp_all add: on_conflict_update_def)
  with True show ?thesis
    by (simp add: announced_def upsert_host_def)
next
  case False
  then have "list_all (\<lambda>r. PublicKey r \<noteq> PublicKey h) rows"
    by (induction rows) auto
  then have "list_all (\<lambda>r. PublicKey r \<noteq> PublicKey h
        \<or> (LastAnnouncement r = LastAnnouncement h \<and> NetAddress r = NetAddress h)) rows"
    by (simp add: list_all_iff)
  with False show ?thesis
    by (simp add: announced_def upsert_host_def)
qed

lemma upsert_host_other:
  "PublicKey h \<noteq> k \<Longrightarrow> announced k t addr rows \<Longrightarrow> announced k t addr (upsert_host now h rows)"
  by (auto simp: announced_def upsert_host_def on_conflict_update_def list_all_iff)

lemma upserts_other:
  "k \<notin> set (map PublicKey hs) \<Longrightarrow> announced k t addr rows \<Longrightarrow>
     announced k t addr (fold (upsert_host now) hs rows)"
proof (induction hs arbitrary: rows)
  case Nil
  then show ?case by simp
next
  case (Cons h hs)
  from Cons.prems have "PublicKey h \<noteq> k" and rest: "k \<notin> set (map PublicKey hs)"
    by auto
  then have "announced k t addr (upsert_host now h rows)"
    using Cons.prems(2) by (simp add: upsert_host_other)
  from Cons.IH[OF rest this] show ?case by simp
qed

lemma upserts_announced:
  assumes "PublicKey h \<notin> set (map PublicKey post)"
  shows "announced (PublicKey h) (LastAnnouncement h) (NetAddress h)
           (fold (upsert_host now) (pre @ h # post) rows)"
proof -
  have "announced (PublicKey h) (LastAnnouncement h) (NetAddress h)
          (upsert_host now h (fold (upsert_host now) pre rows))"
    by (rule upsert_host_announced)
  from upserts_other[OF assms this] show ?thesis by simp
qed


text \<open>
  Claim C8.  When \<^verbatim>\<open>insertAnnouncements\<close> succeeds on a batch, the host table has a
  row for every public key of the batch besides the keys it had (a row is created for
  a key that had none); every row that was there is still there, in place, and differs
  from what it was in its last-announcement time and its address only; unique keys
  stay unique; and the rows of a key carry the time and the address of the last
  announcement of that key in the batch.
\<close>

theorem C8_upsert_frame:
  assumes "insertAnnouncements env as tx = Inr tx'"
  shows "set (map PublicKey (hosts tx')) = set (map PublicKey (hosts tx)) \<union> set (map hostKey as)
       \<and> take (length (hosts tx)) (map without_announcement (hosts tx')) =
           map without_announcement (hosts tx)
       \<and> (distinct (map PublicKey (hosts tx)) \<longrightarrow> distinct (map PublicKey (hosts tx')))
       \<and> (\<forall>pre a post. as = pre @ a # post \<and> hostKey a \<notin> set (map hostKey post) \<longrightarrow>
             announced (hostKey a) (AnnTimestamp (announcement a))
               (AnnouncedNetAddress (announcement a)) (hosts tx'))"
proof -
  have rows: "hosts tx' = fold (upsert_host (tx_now env)) (map host_of as) (hosts tx)"
    using insertAnnouncements_Inr[OF assms] by simp
  have keys: "map PublicKey (map host_of as) = map hostKey as"
    by (simp add: host_of_def comp_def)
  have 1: "set (map PublicKey (hosts tx')) = set (map PublicKey (hosts tx)) \<union> set (map hostKey as)"
    unfolding rows upserts_keys keys ..
  obtain new where "map without_announcement (hosts tx') = map without_announcement (hosts tx) @ new"
    unfolding rows using upserts_extend by blast
  then have 2: "take (length (hosts tx)) (map without_announcement (hosts tx')) =
           map without_announcement (hosts tx)"
    by simp
  have 3: "distinct (map PublicKey (hosts tx')) " if "distinct (map PublicKey (hosts tx))"
    unfolding rows using that by (rule upserts_distinct)
  have 4: "announced (hostKey a) (AnnTimestamp (announcement a))
               (AnnouncedNetAddress (announcement a)) (hosts tx')"
    if "as = pre @ a # post" and "hostKey a \<notin> set (map hostKey post)" for pre a post
  proof -
    from that(2) have "PublicKey (host_of a) \<notin> set (map PublicKey (map host_of post))"
      by (simp add: host_of_def comp_def)
    from upserts_announced[OF this, of "tx_now env" "map host_of pre" "hosts tx"]
    show ?thesis
      unfolding rows that(1) by (simp add: host_of_def)
  qed
  from 1 2 3 4 show ?thesis by blast
qed

text \<open>
  The example batch on the example database: host \<open>A\<close> is there and gets the new time
  and address, host \<open>C\<close> is created.
\<close>

theorem C8_upsert_frame_witness:
  "insertAnnouncements ex_env ex_batch ex_db =
     Inr (ex_db\<lparr>host_announcements :=
                  create_rows 50 (map announcement_row ex_batch) [],
                hosts := [ex_host\<lparr>LastAnnouncement := 30, NetAddress := ''a:2''\<rparr>, ex_new_host,
                          new_row 50 [ex_host, ex_new_host] (host_of (ex_batch ! 1))]\<rparr>)
   \<and> map PublicKey (hosts ex_db) = [''A'', ''B'']
   \<and> set (map PublicKey [ex_host\<lparr>LastAnnouncement := 30, NetAddress := ''a:2''\<rparr>, ex_new_host,
                          new_row 50 [ex_host, ex_new_host] (host_of (ex_batch ! 1))]) =
       {''A'', ''B'', ''C''}
   \<and> announced ''A'' 30 ''a:2''
        [ex_host\<lparr>LastAnnouncement := 30, NetAddress := ''a:2''\<rparr>, ex_new_host,
         new_row 50 [ex_host, ex_new_host] (host_of (ex_batch ! 1))]"
proof -
  let ?after = "ex_db\<lparr>host_announcements :=
                  create_rows 50 (map announcement_row ex_batch) [],
                hosts := [ex_host\<lparr>LastAnnouncement := 30, NetAddress := ''a:2''\<rparr>, ex_new_host,
                          new_row 50 [ex_host, ex_new_host] (host_of (ex_batch ! 1))]\<rparr>"
  have run: "insertAnnouncements ex_env ex_batch ex_db = Inr ?after"
    by (simp add: ex_defs insertAnnouncements_def Let_def upsert_host_def on_conflict_update_def
        host_of_def announcement_row_def new_row_def nextID_def)
  have keys: "map PublicKey (hosts ex_db) = [''A'', ''B'']"
    by (simp add: ex_defs)
  have split: "ex_batch = [] @ (ex_batch ! 0) # [ex_batch ! 1]"
    by (simp add: ex_batch_def)
  have later: "hostKey (ex_batch ! 0) \<notin> set (map hostKey [ex_batch ! 1])"
    by (simp add: ex_batch_def)
  have all: "\<forall>pre a post. ex_batch = pre @ a # post \<and> hostKey a \<notin> set (map hostKey post) \<longrightarrow>
             announced (hostKey a) (AnnTimestamp (announcement a))
               (AnnouncedNetAddress (announcement a)) (hosts ?after)"
    using C8_upsert_frame[OF run] by (elim conjE)
  from all split later
  have "announced (hostKey (ex_batch ! 0)) (AnnTimestamp (announcement (ex_batch ! 0)))
          (AnnouncedNetAddress (announcement (ex_batch ! 0))) (hosts ?after)"
    by blast
  then have last: "announced ''A'' 30 ''a:2''
        [ex_host\<lparr>LastAnnouncement := 30, NetAddress := ''a:2''\<rparr>, ex_new_host,
         new_row 50 [ex_host, ex_new_host] (host_of (ex_batch ! 1))]"
    by (simp add: ex_batch_def ex_ann_def)
  from C8_upsert_frame[OF run, THEN conjunct1] keys run last show ?thesis
    by (simp add: ex_batch_def insert_commute)
qed

section \<open>Listing hosts ignores the scan time\<close>

lemma Hosts_ignores_notSince: "Hosts env d notSince maxHosts = Hosts env d notSince' maxHosts"
  by (simp add: Hosts_def)

text \<open>
  Claim C9.  The claim asks that \<^verbatim>\<open>Hosts\<close> returns only hosts not scanned after the
  given time.  The body never reads \<^verbatim>\<open>notSince\<close>: on the example database, asked for
  at most 10 hosts not scanned since 50, it returns host \<open>A\<close>, whose last scan is at
  100, and it returns the same for any other time.
\<close>

theorem C9_hosts_not_filtered:
  "Hosts ex_env ex_db 50 10 = Inr [convert ex_host, convert ex_new_host]
   \<and> I_LastScan (H_Interactions (convert ex_host)) = Some 100
   \<and> (50::int) < 100
   \<and> Hosts ex_env ex_db 50 10 = Hosts ex_env ex_db 1000 10"
  by (simp add: Hosts_def gorm_limit_def convert_def ex_defs)

section \<open>Updating an autopilot\<close>

lemma on_conflict_update_all_fields [simp]:
  "Identifier (on_conflict_update_all now a r) = Identifier r"
  by (simp add: on_conflict_update_all_def)

lemma upsert_autopilot_keys:
  "set (map Identifier (upsert_autopilot now a rows)) = insert (Identifier a) (set (map Identifier rows))"
proof (cases "Identifier a \<in> set (map Identifier rows)")
  case True
  then have "upsert_autopilot now a rows = map (on_conflict_update_all now a) rows"
    by (simp add: upsert_autopilot_def)
  with True show ?thesis
    by (simp add: comp_def insert_absorb)
next
  case False
  then show ?thesis
    by (simp add: upsert_autopilot_def new_row_def)
qed

lemma upsert_autopilot_others:
  "filter (\<lambda>r. Identifier r \<noteq> Identifier a) (upsert_autopilot now a rows) =
     filter (\<lambda>r. Identifier r \<noteq> Identifier a) rows"
proof (cases "Identifier a \<in> set (map Identifier rows)")
  case True
  have "filter (\<lambda>r. Identifier r \<noteq> Identifier a) (map (on_conflict_update_all now a) rows) =
     filter (\<lambda>r. Identifier r \<noteq> Identifier a) rows"
    by (induction rows) (simp_all add: on_conflict_update_all_def)
  with True show ?thesis
    by (simp add: upsert_autopilot_def)
next
  case False
  then show ?thesis
    by (simp add: upsert_autopilot_def new_row_def)
qed

lemma upsert_autopilot_row:
  "list_all (\<lambda>r. Identifier r \<noteq> Identifier a
               \<or> (Config r = Config a \<and> CurrentPeriod r = CurrentPeriod a))
     (upsert_autopilot now a rows)"
proof (cases "Identifier a \<in> set (map Identifier rows)")
  case True
  have "list_all (\<lambda>r. Identifier r \<noteq> Identifier a
               \<or> (Config r = Config a \<and> CurrentPeriod r = CurrentPeriod a))
     (map (on_conflict_update_all now a) rows)"
    by (induction rows) (simp_all add: on_conflict_update_all_def)
  with True show ?thesis
    by (simp add: upsert_autopilot_def)
next
  case False
  then have "list_all (\<lambda>r. Identifier r \<noteq> Identifier a) rows"
    by (induction rows) auto
  then have "list_all (\<lambda>r. Identifier r \<noteq> Identifier a
               \<or> (Config r = Config a \<and> CurrentPeriod r = CurrentPeriod a)) rows"
    by (simp add: list_all_iff)
  with False show ?thesis
    by (simp add: upsert_autopilot_def new_row_def)
qed

text \<open>
  Claim C10.  \<^verbatim>\<open>UpdateAutopilot\<close> with an empty identifier returns the error about
  the identifier, and with a configuration that fails validation the validation error,
  both with the database untouched; whenever it returns an error the database is
  untouched.  With a non-empty identifier and a valid configuration (that marshals, the
  write succeeding) it returns no error, the table has a row of that identifier, the
  rows of that identifier hold the marshalled configuration and the current period,
  and the rows of other identifiers are what they were.
\<close>

theorem C10_update_autopilot:
  "(A_ID ap = [] \<longrightarrow>
      UpdateAutopilot codec env d ap = (Some (Err ''autopilot ID cannot be empty''), d))
   \<and> (A_ID ap \<noteq> [] \<and> Validate codec (A_Config ap) = Some e \<longrightarrow>
      UpdateAutopilot codec env d ap = (Some e, d))
   \<and> (fst (UpdateAutopilot codec env d ap) \<noteq> None \<longrightarrow> snd (UpdateAutopilot codec env d ap) = d)
   \<and> (A_ID ap \<noteq> [] \<and> Validate codec (A_Config ap) = None
        \<and> json_Marshal codec (A_Config ap) = Inr cfg \<and> upsert_autopilot_err env = None \<longrightarrow>
      fst (UpdateAutopilot codec env d ap) = None
      \<and> set (map Identifier (autopilots (snd (UpdateAutopilot codec env d ap)))) =
          insert (A_ID ap) (set (map Identifier (autopilots d)))
      \<and> list_all (\<lambda>r. Identifier r \<noteq> A_ID ap
                      \<or> (Config r = cfg \<and> CurrentPeriod r = A_CurrentPeriod ap))
          (autopilots (snd (UpdateAutopilot codec env d ap)))
      \<and> filter (\<lambda>r. Identifier r \<noteq> A_ID ap) (autopilots (snd (UpdateAutopilot codec env d ap))) =
          filter (\<lambda>r. Identifier r \<noteq> A_ID ap) (autopilots d))"
proof -
  have 1: "UpdateAutopilot codec env d ap = (Some (Err ''autopilot ID cannot be empty''), d)"
    if "A_ID ap = []"
    using that by (simp add: UpdateAutopilot_def)
  have 2: "UpdateAutopilot codec env d ap = (Some e, d)"
    if "A_ID ap \<noteq> []" "Validate codec (A_Config ap) = Some e"
    using that by (simp add: UpdateAutopilot_def)
  have 3: "snd (UpdateAutopilot codec env d ap) = d"
    if "fst (UpdateAutopilot codec env d ap) \<noteq> None"
    using that by (auto simp: UpdateAutopilot_def split: if_splits option.splits sum.splits)
  have 4: "fst (UpdateAutopilot codec env d ap) = None
      \<and> set (map Identifier (autopilots (snd (UpdateAutopilot codec env d ap)))) =
          insert (A_ID ap) (set (map Identifier (autopilots d)))
      \<and> list_all (\<lambda>r. Identifier r \<noteq> A_ID ap
                      \<or> (Config r = cfg \<and> CurrentPeriod r = A_CurrentPeriod ap))
          (autopilots (snd (UpdateAutopilot codec env d ap)))
      \<and> filter (\<lambda>r. Identifier r \<noteq> A_ID ap) (autopilots (snd (UpdateAutopilot codec env d ap))) =
          filter (\<lambda>r. Identifier r \<noteq> A_ID ap) (autopilots d)"
    if "A_ID ap \<noteq> []" "Validate codec (A_Config ap) = None"
      "json_Marshal codec (A_Config ap) = Inr cfg" "upsert_autopilot_err env = None"
  proof -
    let ?a = "\<lparr>ID = 0, CreatedAt = 0, UpdatedAt = 0, Identifier = A_ID ap, Config = cfg,
                CurrentPeriod = A_CurrentPeriod ap\<rparr>"
    from that have run: "UpdateAutopilot codec env d ap =
        (None, d\<lparr>autopilots := upsert_autopilot (tx_now env) ?a (autopilots d)\<rparr>)"
      by (simp add: UpdateAutopilot_def)
    show ?thesis
      unfolding run
      using upsert_autopilot_keys[of "tx_now env" ?a "autopilots d"]
        upsert_autopilot_row[of ?a "tx_now env" "autopilots d"]
        upsert_autopilot_others[of ?a "tx_now env" "autopilots d"]
      by simp
  qed
  from 1 2 3 4 show ?thesis by blast
qed

text \<open>
  The example table with one autopilot: an empty identifier, an invalid configuration,
  an update of the existing autopilot and the creation of a second one.
\<close>

theorem C10_update_autopilot_witness:
  "A_ID (ex_autopilot [] ''cfg'') = []
   \<and> UpdateAutopilot ex_config_codec ex_env ex_db_autopilot (ex_autopilot [] ''cfg'') =
       (Some (Err ''autopilot ID cannot be empty''), ex_db_autopilot)
   \<and> Validate ex_config_codec (A_Config (ex_autopilot ''ap1'' ''bad'')) = Some (Err ''invalid config'')
   \<and> UpdateAutopilot ex_config_codec ex_env ex_db_autopilot (ex_autopilot ''ap1'' ''bad'') =
       (Some (Err ''invalid config''), ex_db_autopilot)
   \<and> Validate ex_config_codec (A_Config (ex_autopilot ''ap1'' ''cfg'')) = None
   \<and> UpdateAutopilot ex_config_codec ex_env ex_db_autopilot (ex_autopilot ''ap1'' ''cfg'') =
       (None, ex_db_autopilot\<lparr>autopilots :=
          [ex_autopilot_row\<lparr>UpdatedAt := 50, Config := ''json:cfg'', CurrentPeriod := 3\<rparr>]\<rparr>)
   \<and> map Identifier (autopilots (snd (UpdateAutopilot ex_config_codec ex_env ex_db_autopilot
         (ex_autopilot ''ap2'' ''cfg'')))) = [''ap1'', ''ap2'']"
proof -
  have a: "A_ID (ex_autopilot [] ''cfg'') = []"
    by (simp add: ex_autopilot_def)
  have b: "A_ID (ex_autopilot ''ap1'' ''bad'') \<noteq> []
      \<and> Validate ex_config_codec (A_Config (ex_autopilot ''ap1'' ''bad'')) = Some (Err ''invalid config'')"
    by (simp add: ex_autopilot_def ex_config_codec_def)
  from C10_update_autopilot[where ap = "ex_autopilot [] ''cfg''" and codec = ex_config_codec
      and env = ex_env and d = ex_db_autopilot] a
  have 1: "UpdateAutopilot ex_config_codec ex_env ex_db_autopilot (ex_autopilot [] ''cfg'') =
       (Some (Err ''autopilot ID cannot be empty''), ex_db_autopilot)"
    by blast
  from C10_update_autopilot[where ap = "ex_autopilot ''ap1'' ''bad''" and codec = ex_config_codec
      and e = "Err ''invalid config''" and env = ex_env and d = ex_db_autopilot] b
  have 2: "UpdateAutopilot ex_config_codec ex_env ex_db_autopilot (ex_autopilot ''ap1'' ''bad'') =
       (Some (Err ''invalid config''), ex_db_autopilot)"
    by blast
  show ?thesis
    unfolding 1 2 using a b
    by (simp add: ex_defs UpdateAutopilot_def upsert_autopilot_def on_conflict_update_all_def
        new_row_def nextID_def)
qed

end
